theory Spec2Isabelle
  imports
    Main
    "HOL-Library.Word"
    "HOL-Library.Char_ord"
    "HOL-Library.List_Lexorder"
    "HOL-Library.Product_Lexorder"
    "HOL-Library.Sublist"
    "HOL-Library.Multiset"
begin

section \<open>Data model\<close>

text \<open>
  A \<open>time.Time\<close> is modelled by its number of seconds since the year 1 (what Go keeps
  in the field \<open>ext\<close> of a time without monotonic reading): the zero \<open>time.Time{}\<close> is 0,
  \<open>After\<close> is \<open>>\<close>. A timestamp column holds such a time, and the statements compare,
  join and sort timestamps as times; how the driver writes a time as text is outside the
  sources.
\<close>

type_synonym Time = int

text \<open>Go's \<open>int\<close> (64 bits, two's complement): \<open>sint\<close> reads its value, \<open>*\<close> wraps.\<close>

type_synonym go_int = "64 word"

text \<open>
  \<open>models.Message\<close> (package models) and \<open>Message\<close> (package mcp) have the same
  fields; one record stands for both.
\<close>

record Message =
  ID :: string
  ChatJID :: string
  Sender :: string
  Content :: string
  Timestamp :: Time
  IsFromMe :: bool
  ChatName :: string

text \<open>\<open>Chat\<close> of package mcp; \<open>models.Chat\<close> has the field \<open>Messages\<close> besides.\<close>

record Chat =
  JID :: string
  Name :: string
  LastMessageTime :: Time
  LastMessage :: string
  LastSender :: string
  LastIsFromMe :: bool

record models_Chat = Chat +
  Messages :: "Message list"

datatype error =
    ErrNoRows
  | ErrDBClosed
  | ErrForeignKey
  | ErrNoSuchColumn string
  | Errorf string error

section \<open>The store (package db)\<close>

text \<open>
  The two tables of \<open>initDB\<close>, each a list of rows in insertion order:
  \<open>chats(jid PRIMARY KEY, name, last_message_time)\<close> and
  \<open>messages(id, chat_jid, sender, content, timestamp, is_from_me,
  PRIMARY KEY (id, chat_jid), FOREIGN KEY (chat_jid) REFERENCES chats(jid))\<close>.
  \<open>StoreChat\<close> and \<open>StoreMessage\<close> are the only writers and bind Go values, so no column
  holds NULL.
\<close>

record chats_row =
  chats_jid :: string
  chats_name :: string
  chats_last_message_time :: Time

record messages_row =
  messages_id :: string
  messages_chat_jid :: string
  messages_sender :: string
  messages_content :: string
  messages_timestamp :: Time
  messages_is_from_me :: bool

record tables =
  chats :: "chats_row list"
  messages :: "messages_row list"

text \<open>
  The handle \<open>*sql.DB\<close>: the database file and whether \<open>Close\<close> was called; every
  statement on a closed handle fails.
\<close>

record db =
  closed :: bool
  contents :: tables

text \<open>\<open>INSERT OR REPLACE\<close>: the rows with the new row's key are deleted, the row is added.\<close>

definition insert_or_replace :: "('r \<Rightarrow> 'k) \<Rightarrow> 'r \<Rightarrow> 'r list \<Rightarrow> 'r list" where
  "insert_or_replace key r rows = filter (\<lambda>x. key x \<noteq> key r) rows @ [r]"

definition Close :: "db \<Rightarrow> db" where
  "Close s = s\<lparr>closed := True\<rparr>"

definition StoreChat :: "db \<Rightarrow> models_Chat \<Rightarrow> error + db" where
  "StoreChat s chat =
     (if closed s then Inl ErrDBClosed
      else Inr (s\<lparr>contents := (contents s)\<lparr>chats :=
        insert_or_replace chats_jid
          \<lparr>chats_jid = JID chat, chats_name = Name chat,
           chats_last_message_time = LastMessageTime chat\<rparr>
          (chats (contents s))\<rparr>\<rparr>))"

text \<open>
  The foreign key is enforced (\<open>PRAGMA foreign_keys = ON\<close>): a message whose \<open>chat_jid\<close>
  is no \<open>jid\<close> of \<open>chats\<close> is refused and the table is left as it was.
\<close>

definition StoreMessage :: "db \<Rightarrow> Message \<Rightarrow> error + db" where
  "StoreMessage s msg =
     (if Content msg = [] then Inr s
      else if closed s then Inl ErrDBClosed
      else if ChatJID msg \<notin> set (map chats_jid (chats (contents s))) then Inl ErrForeignKey
      else Inr (s\<lparr>contents := (contents s)\<lparr>messages :=
        insert_or_replace (\<lambda>r. (messages_id r, messages_chat_jid r))
          \<lparr>messages_id = ID msg, messages_chat_jid = ChatJID msg,
           messages_sender = Sender msg, messages_content = Content msg,
           messages_timestamp = Timestamp msg, messages_is_from_me = IsFromMe msg\<rparr>
          (messages (contents s))\<rparr>\<rparr>))"

text \<open>\<open>QueryRowContext(...).Scan\<close> of \<open>GetChat\<close>: the first row, or \<open>sql.ErrNoRows\<close>.\<close>

definition QueryRow_chat :: "db \<Rightarrow> string \<Rightarrow> error + chats_row" where
  "QueryRow_chat s jid =
     (if closed s then Inl ErrDBClosed
      else case find (\<lambda>r. chats_jid r = jid) (chats (contents s)) of
        None \<Rightarrow> Inl ErrNoRows
      | Some r \<Rightarrow> Inr r)"

text \<open>\<open>GetChat\<close> returns \<open>(nil, nil)\<close> for no row: \<open>Inr None\<close>.\<close>

definition GetChat :: "db \<Rightarrow> string \<Rightarrow> error + models_Chat option" where
  "GetChat s jid =
     (case QueryRow_chat s jid of
        Inl err \<Rightarrow> (if err = ErrNoRows then Inr None else Inl err)
      | Inr r \<Rightarrow> Inr (Some
          \<lparr>JID = chats_jid r, Name = chats_name r,
           LastMessageTime = chats_last_message_time r,
           LastMessage = [], LastSender = [], LastIsFromMe = False, Messages = []\<rparr>))"

section \<open>The ingestion step (package services)\<close>

text \<open>The interface \<open>db.DB\<close>, as far as the service writes through it.\<close>

record 's DB =
  DB_StoreChat :: "'s \<Rightarrow> models_Chat \<Rightarrow> error + 's"
  DB_StoreMessage :: "'s \<Rightarrow> Message \<Rightarrow> error + 's"

definition sqlite_DB :: "db DB" where
  "sqlite_DB = \<lparr>DB_StoreChat = StoreChat, DB_StoreMessage = StoreMessage\<rparr>"

text \<open>The loop over \<open>chat.Messages\<close>: it returns at the first message that fails.\<close>

fun storeMessages :: "'s DB \<Rightarrow> Message list \<Rightarrow> 's \<Rightarrow> error option \<times> 's" where
  "storeMessages d [] s = (None, s)"
| "storeMessages d (msg # msgs) s =
     (case DB_StoreMessage d s msg of
        Inl err \<Rightarrow> (Some (Errorf ''error storing message: '' err), s)
      | Inr s' \<Rightarrow> storeMessages d msgs s')"

definition storeChatAndMessage :: "'s DB \<Rightarrow> models_Chat \<Rightarrow> 's \<Rightarrow> error option \<times> 's" where
  "storeChatAndMessage d chat s =
     (case DB_StoreChat d s chat of
        Inl err \<Rightarrow> (Some (Errorf ''error storing chat: '' err), s)
      | Inr s' \<Rightarrow> storeMessages d (Messages chat) s')"

text \<open>
  The goroutine of \<open>NewService\<close>: every event of the channel in order, an error printed
  and the loop continued. It returns the errors printed and the last state.
\<close>

fun NewService_loop :: "'s DB \<Rightarrow> models_Chat list \<Rightarrow> 's \<Rightarrow> error list \<times> 's" where
  "NewService_loop d [] s = ([], s)"
| "NewService_loop d (chat # rest) s =
     (case storeChatAndMessage d chat s of
        (None, s') \<Rightarrow> NewService_loop d rest s'
      | (Some err, s') \<Rightarrow>
          (case NewService_loop d rest s' of (errs, s'') \<Rightarrow> (err # errs, s'')))"

section \<open>History sync (package whatsapp)\<close>

















section \<open>SQL as the queries use it\<close>

text \<open>\<open>LOWER\<close> and the comparison of \<open>LIKE\<close> fold the letters A to Z only.\<close>

definition lower_char :: "char \<Rightarrow> char" where
  "lower_char c =
     (if CHR ''A'' \<le> c \<and> c \<le> CHR ''Z'' then char_of (of_char c + (32::nat)) else c)"

definition LOWER :: "string \<Rightarrow> string" where
  "LOWER s = map lower_char s"

text \<open>
  \<open>LIKE text pattern\<close> is \<open>text LIKE pattern\<close>: \<open>%\<close> stands for any run of characters,
  \<open>_\<close> for any one character, no character escapes them, and letters match in either case.
\<close>

fun LIKE :: "string \<Rightarrow> string \<Rightarrow> bool" where
  "LIKE [] [] = True"
| "LIKE (c # cs) [] = False"
| "LIKE [] (p # ps) = (p = CHR ''%'' \<and> LIKE [] ps)"
| "LIKE (c # cs) (p # ps) =
     (if p = CHR ''%'' then LIKE (c # cs) ps \<or> LIKE cs (p # ps)
      else if p = CHR ''_'' then LIKE cs ps
      else lower_char p = lower_char c \<and> LIKE cs ps)"

text \<open>
  \<open>ORDER BY\<close>: rows with equal keys stay in the order they had (SQLite promises no order
  among them). \<open>LIMIT\<close> and \<open>OFFSET\<close>: a negative limit is no limit, a negative offset is 0.
\<close>

definition ORDER_BY :: "('r \<Rightarrow> 'k::linorder) \<Rightarrow> 'r list \<Rightarrow> 'r list" where
  "ORDER_BY key rows = sort_key key rows"

definition ORDER_BY_DESC :: "('r \<Rightarrow> 'k::linorder) \<Rightarrow> 'r list \<Rightarrow> 'r list" where
  "ORDER_BY_DESC key rows = rev (sort_key key (rev rows))"

definition LIMIT :: "int \<Rightarrow> 'r list \<Rightarrow> 'r list" where
  "LIMIT n rows = (if n < 0 then rows else take (nat n) rows)"

definition LIMIT_OFFSET :: "int \<Rightarrow> int \<Rightarrow> 'r list \<Rightarrow> 'r list" where
  "LIMIT_OFFSET n off rows = LIMIT n (drop (nat off) rows)"

text \<open>\<open>FROM messages JOIN chats ON messages.chat_jid = chats.jid\<close>.\<close>

definition messages_JOIN_chats :: "tables \<Rightarrow> (messages_row \<times> chats_row) list" where
  "messages_JOIN_chats t =
     concat (map (\<lambda>m. map (Pair m) (filter (\<lambda>c. messages_chat_jid m = chats_jid c) (chats t)))
       (messages t))"

text \<open>
  \<open>FROM chats LEFT JOIN messages ON chats.jid = messages.chat_jid AND
  chats.last_message_time = messages.timestamp\<close>: a chat with no such message gives one
  row with NULL for the columns of \<open>messages\<close>.
\<close>

definition chats_LEFT_JOIN_messages :: "tables \<Rightarrow> (chats_row \<times> messages_row option) list" where
  "chats_LEFT_JOIN_messages t =
     concat (map (\<lambda>c.
       (case filter (\<lambda>m. chats_jid c = messages_chat_jid m \<and>
                chats_last_message_time c = messages_timestamp m) (messages t) of
          [] \<Rightarrow> [(c, None)]
        | ms \<Rightarrow> map (\<lambda>m. (c, Some m)) ms)) (chats t))"

text \<open>\<open>GROUP BY\<close> with bare columns: one row for each key, here the first of its group.\<close>

fun GROUP_BY :: "('r \<Rightarrow> 'k) \<Rightarrow> 'k list \<Rightarrow> 'r list \<Rightarrow> 'r list" where
  "GROUP_BY key seen [] = []"
| "GROUP_BY key seen (r # rows) =
     (if key r \<in> set seen then GROUP_BY key seen rows
      else r # GROUP_BY key (key r # seen) rows)"

section \<open>The queries (package mcp)\<close>


record MessageContext =
  Message :: Message
  Before :: "Message list"
  After :: "Message list"

text \<open>The \<open>rows.Scan\<close> of a row of \<open>messages JOIN chats\<close> into a \<open>Message\<close>.\<close>

definition scan_Message :: "messages_row \<times> chats_row \<Rightarrow> Message" where
  "scan_Message = (\<lambda>(m, c).
     \<lparr>ID = messages_id m, ChatJID = chats_jid c, Sender = messages_sender m,
      Content = messages_content m, Timestamp = messages_timestamp m,
      IsFromMe = messages_is_from_me m, ChatName = chats_name c\<rparr>)"

text \<open>The \<open>rows.Scan\<close> of a row of \<open>chats LEFT JOIN messages\<close>: a NULL leaves the zero value.\<close>

definition scan_Chat :: "chats_row \<times> messages_row option \<Rightarrow> Chat" where
  "scan_Chat = (\<lambda>(c, lm).
     \<lparr>JID = chats_jid c, Name = chats_name c, LastMessageTime = chats_last_message_time c,
      LastMessage = (case lm of None \<Rightarrow> [] | Some m \<Rightarrow> messages_content m),
      LastSender = (case lm of None \<Rightarrow> [] | Some m \<Rightarrow> messages_sender m),
      LastIsFromMe = (case lm of None \<Rightarrow> False | Some m \<Rightarrow> messages_is_from_me m)\<rparr>)"

text \<open>\<open>strings.Split\<close> at a one-character separator, and \<open>strings.Contains\<close> of it.\<close>

fun strings_Split :: "string \<Rightarrow> char \<Rightarrow> string list" where
  "strings_Split [] sep = [[]]"
| "strings_Split (c # cs) sep =
     (if c = sep then [] # strings_Split cs sep
      else (case strings_Split cs sep of
              [] \<Rightarrow> [[c]]
            | part # parts \<Rightarrow> (c # part) # parts))"

definition strings_Contains :: "string \<Rightarrow> char \<Rightarrow> bool" where
  "strings_Contains s sep = (sep \<in> set s)"

text \<open>The two normalisations at the head of every list operation.\<close>

definition normal_limit :: "go_int \<Rightarrow> go_int" where
  "normal_limit limit = (if sint limit \<le> 0 then 20 else limit)"

definition normal_page :: "go_int \<Rightarrow> go_int" where
  "normal_page page = (if sint page < 0 then 0 else page)"

subsection \<open>GetMessageContext\<close>

text \<open>
  The two range queries, each before its \<open>LIMIT ?\<close>; \<open>queryBefore\<close> is ordered
  \<open>DESC\<close>, \<open>queryAfter\<close> is ordered \<open>ASC\<close>, and the rows are appended as they are read.
  \<open>QueryRow\<close> keeps the first row of the lookup by id, here the first in table order.
\<close>

definition context_rows_before :: "tables \<Rightarrow> string \<Rightarrow> Time \<Rightarrow> (messages_row \<times> chats_row) list" where
  "context_rows_before t chatJID ts =
     ORDER_BY_DESC (\<lambda>r. messages_timestamp (fst r))
       (filter (\<lambda>r. messages_chat_jid (fst r) = chatJID \<and> messages_timestamp (fst r) < ts)
          (messages_JOIN_chats t))"

definition context_rows_after :: "tables \<Rightarrow> string \<Rightarrow> Time \<Rightarrow> (messages_row \<times> chats_row) list" where
  "context_rows_after t chatJID ts =
     ORDER_BY (\<lambda>r. messages_timestamp (fst r))
       (filter (\<lambda>r. messages_chat_jid (fst r) = chatJID \<and> messages_timestamp (fst r) > ts)
          (messages_JOIN_chats t))"

definition GetMessageContext :: "tables \<Rightarrow> string \<Rightarrow> go_int \<Rightarrow> go_int \<Rightarrow> error + MessageContext" where
  "GetMessageContext t messageID n_before n_after =
     (case filter (\<lambda>r. messages_id (fst r) = messageID) (messages_JOIN_chats t) of
        [] \<Rightarrow> Inl (Errorf (''message with ID '' @ messageID @ '' not found: '') ErrNoRows)
      | row # _ \<Rightarrow>
          Inr \<lparr>Message = scan_Message row,
               Before = map scan_Message (LIMIT (sint n_before)
                 (context_rows_before t (messages_chat_jid (fst row)) (messages_timestamp (fst row)))),
               After = map scan_Message (LIMIT (sint n_after)
                 (context_rows_after t (messages_chat_jid (fst row)) (messages_timestamp (fst row))))\<rparr>)"

subsection \<open>ListMessages\<close>

definition ListMessages_where ::
  "Time list \<Rightarrow> string \<Rightarrow> string \<Rightarrow> string \<Rightarrow> messages_row \<times> chats_row \<Rightarrow> bool" where
  "ListMessages_where dateRange senderPhoneNumber chatJID query r =
     ((if length dateRange = 2
       then dateRange ! 0 \<le> messages_timestamp (fst r) \<and> messages_timestamp (fst r) \<le> dateRange ! 1
       else True) \<and>
      (if senderPhoneNumber \<noteq> [] then messages_sender (fst r) = senderPhoneNumber else True) \<and>
      (if chatJID \<noteq> [] then messages_chat_jid (fst r) = chatJID else True) \<and>
      (if query \<noteq> [] then LIKE (LOWER (messages_content (fst r))) (LOWER (''%'' @ query @ ''%''))
       else True))"

text \<open>The query of \<open>ListMessages\<close> before \<open>LIMIT ? OFFSET ?\<close>.\<close>

definition ListMessages_rows ::
  "tables \<Rightarrow> Time list \<Rightarrow> string \<Rightarrow> string \<Rightarrow> string \<Rightarrow> (messages_row \<times> chats_row) list" where
  "ListMessages_rows t dateRange senderPhoneNumber chatJID query =
     ORDER_BY_DESC (\<lambda>r. messages_timestamp (fst r))
       (filter (ListMessages_where dateRange senderPhoneNumber chatJID query)
          (messages_JOIN_chats t))"

text \<open>
  The loop that builds \<open>messagesWithContext\<close>; \<open>ctx\<close> is the call of \<open>GetMessageContext\<close>,
  which opens the database again and may fail.
\<close>

fun messagesWithContext :: "(string \<Rightarrow> error + MessageContext) \<Rightarrow> Message list \<Rightarrow> Message list" where
  "messagesWithContext ctx [] = []"
| "messagesWithContext ctx (msg # msgs) =
     (case ctx (ID msg) of
        Inl err \<Rightarrow> messagesWithContext ctx msgs
      | Inr c \<Rightarrow> Before c @ [Message c] @ After c @ messagesWithContext ctx msgs)"

definition ListMessages_with ::
  "(string \<Rightarrow> go_int \<Rightarrow> go_int \<Rightarrow> error + MessageContext) \<Rightarrow> tables \<Rightarrow> Time list \<Rightarrow> string \<Rightarrow>
   string \<Rightarrow> string \<Rightarrow> go_int \<Rightarrow> go_int \<Rightarrow> bool \<Rightarrow> go_int \<Rightarrow> go_int \<Rightarrow> error + Message list" where
  "ListMessages_with ctx t dateRange senderPhoneNumber chatJID query limit page
     includeContext contextBefore contextAfter =
     (let msgs = map scan_Message
            (LIMIT_OFFSET (sint (normal_limit limit))
               (sint (normal_page page * normal_limit limit))
               (ListMessages_rows t dateRange senderPhoneNumber chatJID query))
      in if includeContext \<and> length msgs > 0
         then Inr (messagesWithContext (\<lambda>i. ctx i contextBefore contextAfter) msgs)
         else Inr msgs)"

text \<open>\<open>ListMessages\<close> when every call of \<open>GetMessageContext\<close> reads the same tables.\<close>

definition ListMessages ::
  "tables \<Rightarrow> Time list \<Rightarrow> string \<Rightarrow> string \<Rightarrow> string \<Rightarrow> go_int \<Rightarrow> go_int \<Rightarrow> bool \<Rightarrow>
   go_int \<Rightarrow> go_int \<Rightarrow> error + Message list" where
  "ListMessages t = ListMessages_with (GetMessageContext t) t"

subsection \<open>ListChats\<close>

definition ListChats_where :: "string \<Rightarrow> chats_row \<times> messages_row option \<Rightarrow> bool" where
  "ListChats_where query r =
     (if query \<noteq> []
      then LIKE (LOWER (chats_name (fst r))) (LOWER (''%'' @ query @ ''%'')) \<or>
           LIKE (chats_jid (fst r)) (''%'' @ query @ ''%'')
      else True)"

text \<open>The query of \<open>ListChats\<close> with the join, before \<open>LIMIT ? OFFSET ?\<close>.\<close>

definition ListChats_rows :: "tables \<Rightarrow> string \<Rightarrow> string \<Rightarrow> (chats_row \<times> messages_row option) list" where
  "ListChats_rows t query sortBy =
     (if sortBy = ''name''
      then ORDER_BY (\<lambda>r. chats_name (fst r))
             (filter (ListChats_where query) (chats_LEFT_JOIN_messages t))
      else ORDER_BY_DESC (\<lambda>r. chats_last_message_time (fst r))
             (filter (ListChats_where query) (chats_LEFT_JOIN_messages t)))"

text \<open>
  Without \<open>includeLastMessage\<close> the statement selects \<open>messages.content\<close> from \<open>chats\<close>
  alone, and SQLite refuses it.
\<close>

definition ListChats :: "tables \<Rightarrow> string \<Rightarrow> go_int \<Rightarrow> go_int \<Rightarrow> bool \<Rightarrow> string \<Rightarrow> error + Chat list" where
  "ListChats t query limit page includeLastMessage sortBy =
     (if \<not> includeLastMessage
      then Inl (Errorf ''error executing query: '' (ErrNoSuchColumn ''messages.content''))
      else Inr (map scan_Chat
        (LIMIT_OFFSET (sint (normal_limit limit))
           (sint (normal_page page * normal_limit limit))
           (ListChats_rows t query sortBy))))"

subsection \<open>SearchContacts\<close>





subsection \<open>GetContactChats\<close>

definition contact_phoneNumber :: "string \<Rightarrow> string" where
  "contact_phoneNumber jid =
     (if strings_Contains jid CHR ''@''
      then (case strings_Split jid CHR ''@'' of [] \<Rightarrow> [] | part # _ \<Rightarrow> part)
      else jid)"

text \<open>
  \<open>chats LEFT JOIN messages ... JOIN messages AS m ON chats.jid = m.chat_jid WHERE
  (chats.jid = ? OR m.sender = ? OR m.sender LIKE ?)\<close>; the columns of \<open>m\<close> are not
  selected.
\<close>

definition GetContactChats_joined :: "tables \<Rightarrow> string \<Rightarrow> (chats_row \<times> messages_row option) list" where
  "GetContactChats_joined t jid =
     concat (map (\<lambda>r.
         map (\<lambda>m. r)
           (filter (\<lambda>m. chats_jid (fst r) = messages_chat_jid m \<and>
               (chats_jid (fst r) = jid \<or> messages_sender m = contact_phoneNumber jid \<or>
                LIKE (messages_sender m) (''%'' @ contact_phoneNumber jid @ ''%'')))
             (messages t)))
       (chats_LEFT_JOIN_messages t))"

text \<open>The query of \<open>GetContactChats\<close> before \<open>LIMIT ? OFFSET ?\<close>.\<close>

definition GetContactChats_rows :: "tables \<Rightarrow> string \<Rightarrow> (chats_row \<times> messages_row option) list" where
  "GetContactChats_rows t jid =
     ORDER_BY_DESC (\<lambda>r. chats_last_message_time (fst r))
       (remdups (GROUP_BY (\<lambda>r. chats_jid (fst r)) [] (GetContactChats_joined t jid)))"

definition GetContactChats :: "tables \<Rightarrow> string \<Rightarrow> go_int \<Rightarrow> go_int \<Rightarrow> error + Chat list" where
  "GetContactChats t jid limit page =
     Inr (map scan_Chat
       (LIMIT_OFFSET (sint (normal_limit limit))
          (sint (normal_page page * normal_limit limit))
          (GetContactChats_rows t jid)))"

section \<open>Notions the properties are stated with\<close>

text \<open>
  Referential integrity: the \<open>chat_jid\<close> of every row of \<open>messages\<close> is the \<open>jid\<close> of a
  row of \<open>chats\<close>.
\<close>

definition referential_integrity :: "tables \<Rightarrow> bool" where
  "referential_integrity t =
     (\<forall>m \<in> set (messages t). messages_chat_jid m \<in> set (map chats_jid (chats t)))"

text \<open>
  The loop over \<open>chat.Messages\<close> as the specification words it: a message whose write
  fails is skipped and the loop goes on. It is compared with \<open>storeMessages\<close>.
\<close>

fun storeMessages_skipping :: "'s DB \<Rightarrow> Message list \<Rightarrow> 's \<Rightarrow> 's" where
  "storeMessages_skipping d [] s = s"
| "storeMessages_skipping d (msg # msgs) s =
     (case DB_StoreMessage d s msg of
        Inl err \<Rightarrow> storeMessages_skipping d msgs s
      | Inr s' \<Rightarrow> storeMessages_skipping d msgs s')"

text \<open>
  The window of a list operation as the specification words it: the limit 20 for a limit
  that is not positive, the page 0 for a negative page, \<open>page * limit\<close> rows skipped,
  with numbers that do not wrap.
\<close>

definition page_window :: "int \<Rightarrow> int \<Rightarrow> 'r list \<Rightarrow> 'r list" where
  "page_window limit page rows =
     take (nat (if limit \<le> 0 then 20 else limit))
       (drop (nat (if page < 0 then 0 else page) * nat (if limit \<le> 0 then 20 else limit)) rows)"

text \<open>
  What one matched message adds to the result of \<open>ListMessages\<close> with context: its
  window, or nothing when the lookup failed.
\<close>

definition context_or_skip ::
  "(string \<Rightarrow> go_int \<Rightarrow> go_int \<Rightarrow> error + MessageContext) \<Rightarrow> go_int \<Rightarrow> go_int \<Rightarrow> Message \<Rightarrow> Message list" where
  "context_or_skip ctx contextBefore contextAfter msg =
     (case ctx (ID msg) contextBefore contextAfter of
        Inl err \<Rightarrow> []
      | Inr c \<Rightarrow> Before c @ [Message c] @ After c)"


text \<open>
  A query with neither of the two wildcards of \<open>LIKE\<close>.
\<close>

definition wildcard_free :: "string \<Rightarrow> bool" where
  "wildcard_free q = (\<forall>ch \<in> set q. ch \<noteq> CHR ''%'' \<and> ch \<noteq> CHR ''_'')"



section \<open>Example data\<close>

text \<open>
  An empty store, an event whose first message names a chat that is not stored, and an
  event as the producer sends it.
\<close>

definition ex_db0 :: db where
  "ex_db0 = \<lparr>closed = False, contents = \<lparr>chats = [], messages = []\<rparr>\<rparr>"

definition ex_msg :: "string \<Rightarrow> string \<Rightarrow> string \<Rightarrow> Time \<Rightarrow> Message" where
  "ex_msg i cj txt ts =
     \<lparr>ID = i, ChatJID = cj, Sender = ''peer'', Content = txt, Timestamp = ts,
      IsFromMe = False, ChatName = []\<rparr>"

definition ex_event :: "string \<Rightarrow> Time \<Rightarrow> Message list \<Rightarrow> models_Chat" where
  "ex_event j ts msgs =
     \<lparr>JID = j, Name = ''peer'', LastMessageTime = ts, LastMessage = [], LastSender = [],
      LastIsFromMe = False, Messages = msgs\<rparr>"

definition ex_bad_event :: models_Chat where
  "ex_bad_event = ex_event ''a@s.whatsapp.net'' 2
     [ex_msg ''m1'' ''b@s.whatsapp.net'' ''stray'' 1, ex_msg ''m2'' ''a@s.whatsapp.net'' ''hello'' 2]"

definition ex_next_event :: models_Chat where
  "ex_next_event = ex_event ''c@s.whatsapp.net'' 3 [ex_msg ''m3'' ''c@s.whatsapp.net'' ''hi'' 3]"

definition ex_db1 :: db where
  "ex_db1 = \<lparr>closed = False, contents =
     \<lparr>chats = [\<lparr>chats_jid = ''a@s.whatsapp.net'', chats_name = ''peer'',
                 chats_last_message_time = 2\<rparr>],
      messages = []\<rparr>\<rparr>"

text \<open>
  The chat of the specification's context example, with messages at 10, 20, 30, 40, 50;
  a lookup that fails for one message; two chats whose watermark does and does not meet a
  message; three chats to search; a history payload of two conversations.
\<close>

definition ex_row :: "string \<Rightarrow> string \<Rightarrow> Time \<Rightarrow> messages_row" where
  "ex_row i cj ts =
     \<lparr>messages_id = i, messages_chat_jid = cj, messages_sender = ''peer'',
      messages_content = ''text'', messages_timestamp = ts, messages_is_from_me = False\<rparr>"

definition ex_tables :: tables where
  "ex_tables =
     \<lparr>chats = [\<lparr>chats_jid = ''C@s.whatsapp.net'', chats_name = ''Carol'',
                 chats_last_message_time = 50\<rparr>],
      messages = [ex_row ''m10'' ''C@s.whatsapp.net'' 10, ex_row ''m20'' ''C@s.whatsapp.net'' 20,
                  ex_row ''m30'' ''C@s.whatsapp.net'' 30, ex_row ''m40'' ''C@s.whatsapp.net'' 40,
                  ex_row ''m50'' ''C@s.whatsapp.net'' 50]\<rparr>"

definition ex_ctx :: "string \<Rightarrow> go_int \<Rightarrow> go_int \<Rightarrow> error + MessageContext" where
  "ex_ctx i b a = (if i = ''m40'' then Inl ErrDBClosed else GetMessageContext ex_tables i b a)"

definition ex_matched :: "Message list" where
  "ex_matched =
     map (\<lambda>m. scan_Message (m, hd (chats ex_tables)))
       [ex_row ''m50'' ''C@s.whatsapp.net'' 50, ex_row ''m40'' ''C@s.whatsapp.net'' 40]"

definition ex_chats_tables :: tables where
  "ex_chats_tables =
     \<lparr>chats = [\<lparr>chats_jid = ''A@s.whatsapp.net'', chats_name = ''Alice'',
                 chats_last_message_time = 5\<rparr>,
               \<lparr>chats_jid = ''B@s.whatsapp.net'', chats_name = ''Bob'',
                 chats_last_message_time = 7\<rparr>],
      messages = [ex_row ''a5'' ''A@s.whatsapp.net'' 5, ex_row ''a9'' ''A@s.whatsapp.net'' 9,
                  ex_row ''b5'' ''B@s.whatsapp.net'' 5]\<rparr>"





section \<open>The store\<close>

text \<open>
  C3. \<open>StoreMessage\<close> of a message with empty content returns no error and leaves the
  store, hence the set of stored message rows, as it was: no statement is run, whatever
  the chat named and the state of the handle.
\<close>

theorem StoreMessage_empty_content:
  "Content msg = [] \<Longrightarrow> StoreMessage s msg = Inr s"
  by (simp add: StoreMessage_def)

theorem StoreMessage_empty_content_witness:
  "Content (ex_msg ''m0'' ''nobody@s.whatsapp.net'' [] 1) = []
   \<and> StoreMessage ex_db1 (ex_msg ''m0'' ''nobody@s.whatsapp.net'' [] 1) = Inr ex_db1
   \<and> StoreMessage (Close ex_db1) (ex_msg ''m0'' ''nobody@s.whatsapp.net'' [] 1) = Inr (Close ex_db1)"
proof -
  have h: "Content (ex_msg ''m0'' ''nobody@s.whatsapp.net'' [] 1) = []"
    by (simp add: ex_msg_def)
  from h StoreMessage_empty_content [OF h, of ex_db1] StoreMessage_empty_content [OF h, of "Close ex_db1"]
  show ?thesis by simp
qed

lemma find_Some_set: "find P xs = Some x \<Longrightarrow> x \<in> set xs \<and> P x"
  by (induction xs) (auto split: if_splits)

text \<open>
  C7. For a jid that is in no row of \<open>chats\<close>, \<open>GetChat\<close> on an open handle returns
  no chat and no error (\<open>Inr None\<close>), and it returns that in no other case: a failure of the
  query, here on a closed handle, is an error (\<open>Inl\<close>).
\<close>

theorem GetChat_absent:
  "(GetChat s jid = Inr None) = (\<not> closed s \<and> jid \<notin> set (map chats_jid (chats (contents s))))
   \<and> (closed s \<longrightarrow> GetChat s jid = Inl ErrDBClosed)"
  by (auto simp: GetChat_def QueryRow_chat_def find_None_iff split: option.splits dest: find_Some_set)

theorem GetChat_absent_witness:
  "GetChat ex_db0 ''unknown@x'' = Inr None \<and> GetChat (Close ex_db0) ''unknown@x'' = Inl ErrDBClosed"
  using GetChat_absent [of ex_db0 "''unknown@x''"] GetChat_absent [of "Close ex_db0" "''unknown@x''"]
  by (simp add: ex_db0_def Close_def)

section \<open>The ingestion step\<close>

lemma storeMessages_append:
  "storeMessages d (xs @ ys) s =
     (case storeMessages d xs s of
        (None, s') \<Rightarrow> storeMessages d ys s'
      | (Some e, s') \<Rightarrow> (Some e, s'))"
  by (induction xs arbitrary: s) (auto split: sum.splits)

text \<open>
  C1, as amended. When the write of a message of an event fails, \<open>storeChatAndMessage\<close>
  stops there: the chat and the messages before it stay written, the messages after it are
  not applied, and the error is returned. The loop of \<open>NewService\<close> prints it and goes on
  with the next event from that store.
\<close>

theorem storeChatAndMessage_stops_at_failure:
  assumes "DB_StoreChat d s chat = Inr s0"
    and "Messages chat = pre @ msg # post"
    and "storeMessages d pre s0 = (None, s1)"
    and "DB_StoreMessage d s1 msg = Inl err"
  shows "storeChatAndMessage d chat s = (Some (Errorf ''error storing message: '' err), s1)
    \<and> NewService_loop d (chat # rest) s =
        (Errorf ''error storing message: '' err # fst (NewService_loop d rest s1),
         snd (NewService_loop d rest s1))"
proof -
  have step: "storeChatAndMessage d chat s = (Some (Errorf ''error storing message: '' err), s1)"
    using assms by (simp add: storeChatAndMessage_def storeMessages_append)
  then show ?thesis
    by (simp add: case_prod_beta)
qed

theorem storeChatAndMessage_stops_at_failure_witness:
  "storeChatAndMessage sqlite_DB ex_bad_event ex_db0 =
     (Some (Errorf ''error storing message: '' ErrForeignKey), ex_db1)
   \<and> fst (NewService_loop sqlite_DB [ex_bad_event, ex_next_event] ex_db0) =
     [Errorf ''error storing message: '' ErrForeignKey]
   \<and> map messages_id (messages (contents
        (snd (NewService_loop sqlite_DB [ex_bad_event, ex_next_event] ex_db0)))) = [''m3'']"
  using storeChatAndMessage_stops_at_failure
    [of sqlite_DB ex_db0 ex_bad_event ex_db1 "[]" "ex_msg ''m1'' ''b@s.whatsapp.net'' ''stray'' 1"
        "[ex_msg ''m2'' ''a@s.whatsapp.net'' ''hello'' 2]" ex_db1 ErrForeignKey "[ex_next_event]"]
  by (simp add: sqlite_DB_def StoreChat_def StoreMessage_def insert_or_replace_def
        storeChatAndMessage_def ex_bad_event_def ex_next_event_def ex_event_def ex_msg_def
        ex_db0_def ex_db1_def)

text \<open>
  C1 as stated fails: the second message of the example event could be written, and it
  is not, because the first one failed; skipping the failed message would have stored it.
\<close>

theorem storeChatAndMessage_skips_counterexample:
  "StoreChat ex_db0 ex_bad_event = Inr ex_db1
   \<and> map ID (Messages ex_bad_event) = [''m1'', ''m2'']
   \<and> fst (storeChatAndMessage sqlite_DB ex_bad_event ex_db0) =
       Some (Errorf ''error storing message: '' ErrForeignKey)
   \<and> messages (contents (snd (storeChatAndMessage sqlite_DB ex_bad_event ex_db0))) = []
   \<and> map messages_id (messages (contents
        (storeMessages_skipping sqlite_DB (Messages ex_bad_event) ex_db1))) = [''m2'']"
  by (simp add: sqlite_DB_def StoreChat_def StoreMessage_def insert_or_replace_def
        storeChatAndMessage_def ex_bad_event_def ex_event_def ex_msg_def
        ex_db0_def ex_db1_def)

lemma jids_insert_or_replace:
  "set (map chats_jid (insert_or_replace chats_jid r rows)) =
     insert (chats_jid r) (set (map chats_jid rows))"
  by (auto simp: insert_or_replace_def)

lemma StoreChat_integrity:
  assumes "StoreChat s chat = Inr s'" and "referential_integrity (contents s)"
  shows "referential_integrity (contents s')"
    and "JID chat \<in> set (map chats_jid (chats (contents s')))"
    and "closed s' = closed s"
proof -
  from assms(1) have s': "s' = s\<lparr>contents := (contents s)\<lparr>chats :=
        insert_or_replace chats_jid
          \<lparr>chats_jid = JID chat, chats_name = Name chat,
           chats_last_message_time = LastMessageTime chat\<rparr>
          (chats (contents s))\<rparr>\<rparr>"
    by (simp add: StoreChat_def split: if_splits)
  show "referential_integrity (contents s')"
    using assms(2) unfolding referential_integrity_def s'
    by (simp add: jids_insert_or_replace del: set_map)
  show "JID chat \<in> set (map chats_jid (chats (contents s')))"
    unfolding s' by (simp add: jids_insert_or_replace del: set_map)
  show "closed s' = closed s"
    unfolding s' by simp
qed

lemma StoreMessage_succeeds:
  assumes "\<not> closed s" and "ChatJID msg \<in> set (map chats_jid (chats (contents s)))"
  shows "\<exists>s'. StoreMessage s msg = Inr s' \<and> \<not> closed s'
           \<and> chats (contents s') = chats (contents s)"
  using assms by (simp add: StoreMessage_def)

lemma StoreMessage_integrity:
  assumes "StoreMessage s msg = Inr s'" and "referential_integrity (contents s)"
  shows "referential_integrity (contents s')"
    and "chats (contents s') = chats (contents s)"
    and "closed s' = closed s"
  using assms
  by (auto simp: StoreMessage_def referential_integrity_def insert_or_replace_def split: if_splits)

lemma storeMessages_integrity:
  assumes "referential_integrity (contents s)"
  shows "referential_integrity (contents (snd (storeMessages sqlite_DB msgs s)))
    \<and> chats (contents (snd (storeMessages sqlite_DB msgs s))) = chats (contents s)
    \<and> closed (snd (storeMessages sqlite_DB msgs s)) = closed s"
  using assms
proof (induction msgs arbitrary: s)
  case Nil
  then show ?case by simp
next
  case (Cons msg msgs)
  show ?case
  proof (cases "StoreMessage s msg")
    case (Inl e)
    then show ?thesis using Cons.prems by (simp add: sqlite_DB_def)
  next
    case (Inr s')
    from StoreMessage_integrity [OF Inr Cons.prems] Cons.IH [of s'] Inr
    show ?thesis by (simp add: sqlite_DB_def)
  qed
qed

lemma storeMessages_same_chat_ok:
  assumes "\<not> closed s" and "j \<in> set (map chats_jid (chats (contents s)))"
    and "\<forall>msg \<in> set msgs. ChatJID msg = j"
  shows "fst (storeMessages sqlite_DB msgs s) = None"
  using assms
proof (induction msgs arbitrary: s)
  case Nil
  then show ?case by simp
next
  case (Cons msg msgs)
  from Cons.prems have "ChatJID msg \<in> set (map chats_jid (chats (contents s)))"
    by simp
  from StoreMessage_succeeds [OF Cons.prems(1) this]
  obtain s' where ok: "StoreMessage s msg = Inr s'" and "\<not> closed s'"
    and "chats (contents s') = chats (contents s)"
    by blast
  with Cons.IH [of s'] Cons.prems show ?case
    by (simp add: sqlite_DB_def)
qed

lemma storeChatAndMessage_integrity:
  assumes "referential_integrity (contents s)"
  shows "referential_integrity (contents (snd (storeChatAndMessage sqlite_DB chat s)))"
proof (cases "StoreChat s chat")
  case (Inl e)
  then show ?thesis using assms by (simp add: storeChatAndMessage_def sqlite_DB_def)
next
  case (Inr s')
  from StoreChat_integrity(1) [OF Inr assms] storeMessages_integrity [of s' "Messages chat"] Inr
  show ?thesis by (simp add: storeChatAndMessage_def sqlite_DB_def)
qed

lemma NewService_loop_integrity:
  assumes "referential_integrity (contents s)"
  shows "referential_integrity (contents (snd (NewService_loop sqlite_DB events s)))"
  using assms
proof (induction events arbitrary: s)
  case Nil
  then show ?case by simp
next
  case (Cons chat rest)
  from storeChatAndMessage_integrity [OF Cons.prems, of chat]
  have "referential_integrity (contents (snd (storeChatAndMessage sqlite_DB chat s)))" .
  from Cons.IH [OF this] show ?case
    by (cases "storeChatAndMessage sqlite_DB chat s") (auto split: option.splits prod.splits)
qed

text \<open>
  C4. The ingestion step keeps referential integrity, for one event and for any sequence
  of events. On an open handle the chat of the event is written first, its row is there
  when the messages are applied and after the step, and an event whose messages all name
  the event's chat is stored without error.
\<close>

theorem ingestion_referential_integrity:
  assumes "referential_integrity (contents s)"
  shows "referential_integrity (contents (snd (storeChatAndMessage sqlite_DB chat s)))
    \<and> referential_integrity (contents (snd (NewService_loop sqlite_DB events s)))
    \<and> (\<not> closed s \<longrightarrow>
         (\<exists>s0. StoreChat s chat = Inr s0
            \<and> JID chat \<in> set (map chats_jid (chats (contents s0)))
            \<and> storeChatAndMessage sqlite_DB chat s = storeMessages sqlite_DB (Messages chat) s0
            \<and> chats (contents (snd (storeChatAndMessage sqlite_DB chat s))) = chats (contents s0)))
    \<and> (\<not> closed s \<and> (\<forall>msg \<in> set (Messages chat). ChatJID msg = JID chat) \<longrightarrow>
         fst (storeChatAndMessage sqlite_DB chat s) = None)"
proof -
  have a: "referential_integrity (contents (snd (storeChatAndMessage sqlite_DB chat s)))"
    by (rule storeChatAndMessage_integrity [OF assms])
  have b: "referential_integrity (contents (snd (NewService_loop sqlite_DB events s)))"
    by (rule NewService_loop_integrity [OF assms])
  have c: "\<exists>s0. StoreChat s chat = Inr s0
            \<and> JID chat \<in> set (map chats_jid (chats (contents s0)))
            \<and> storeChatAndMessage sqlite_DB chat s = storeMessages sqlite_DB (Messages chat) s0
            \<and> chats (contents (snd (storeChatAndMessage sqlite_DB chat s))) = chats (contents s0)"
    if opn: "\<not> closed s"
  proof -
    from opn obtain s0 where s0: "StoreChat s chat = Inr s0"
      by (auto simp: StoreChat_def)
    from StoreChat_integrity [OF s0 assms] storeMessages_integrity [of s0 "Messages chat"] s0
    show ?thesis by (simp add: storeChatAndMessage_def sqlite_DB_def)
  qed
  have d: "fst (storeChatAndMessage sqlite_DB chat s) = None"
    if opn: "\<not> closed s" and same: "\<forall>msg \<in> set (Messages chat). ChatJID msg = JID chat"
  proof -
    from opn obtain s0 where s0: "StoreChat s chat = Inr s0"
      by (auto simp: StoreChat_def)
    from StoreChat_integrity [OF s0 assms] opn
    have "\<not> closed s0" and "JID chat \<in> set (map chats_jid (chats (contents s0)))" by simp_all
    from storeMessages_same_chat_ok [OF this same] s0
    show ?thesis by (simp add: storeChatAndMessage_def sqlite_DB_def)
  qed
  from a b c d show ?thesis by blast
qed

theorem ingestion_referential_integrity_witness:
  "referential_integrity (contents ex_db0)
   \<and> referential_integrity (contents (snd (storeChatAndMessage sqlite_DB ex_next_event ex_db0)))
   \<and> referential_integrity
        (contents (snd (NewService_loop sqlite_DB [ex_bad_event, ex_next_event] ex_db0)))
   \<and> \<not> closed ex_db0
   \<and> fst (storeChatAndMessage sqlite_DB ex_next_event ex_db0) = None
   \<and> map messages_id (messages (contents
         (snd (storeChatAndMessage sqlite_DB ex_next_event ex_db0)))) = [''m3'']"
proof -
  have h: "referential_integrity (contents ex_db0)"
    by (simp add: referential_integrity_def ex_db0_def)
  have o: "\<not> closed ex_db0"
    by (simp add: ex_db0_def)
  have same: "\<forall>msg \<in> set (Messages ex_next_event). ChatJID msg = JID ex_next_event"
    by (simp add: ex_next_event_def ex_event_def ex_msg_def)
  have ids: "map messages_id (messages (contents
         (snd (storeChatAndMessage sqlite_DB ex_next_event ex_db0)))) = [''m3'']"
    by (simp add: sqlite_DB_def StoreChat_def StoreMessage_def insert_or_replace_def
        storeChatAndMessage_def ex_next_event_def ex_event_def ex_msg_def ex_db0_def)
  from ingestion_referential_integrity [OF h, of ex_next_event "[ex_bad_event, ex_next_event]"] h o same ids
  show ?thesis by blast
qed

section \<open>History sync\<close>








section \<open>Sorting and limits\<close>







lemma set_ORDER_BY [simp]: "set (ORDER_BY f xs) = set xs"
  by (simp add: ORDER_BY_def)

lemma set_ORDER_BY_DESC [simp]: "set (ORDER_BY_DESC f xs) = set xs"
  by (simp add: ORDER_BY_DESC_def)

lemma set_LIMIT: "set (LIMIT n xs) \<subseteq> set xs"
  by (auto simp: LIMIT_def dest: in_set_takeD)






lemma set_LIMIT_OFFSET: "set (LIMIT_OFFSET n off xs) \<subseteq> set xs"
proof -
  have "set (LIMIT n (drop (nat off) xs)) \<subseteq> set (drop (nat off) xs)"
    by (rule set_LIMIT)
  also have "\<dots> \<subseteq> set xs"
    by (rule set_drop_subset)
  finally show ?thesis
    by (simp add: LIMIT_OFFSET_def)
qed

section \<open>The context window\<close>













section \<open>Listing\<close>

lemma messagesWithContext_concat:
  "messagesWithContext f msgs =
     concat (map (\<lambda>msg. case f (ID msg) of Inl err \<Rightarrow> [] | Inr c \<Rightarrow> Before c @ [Message c] @ After c) msgs)"
  by (induction msgs) (auto split: sum.splits)

text \<open>
  C10. With \<open>includeContext\<close>, \<open>ListMessages\<close> returns, without error, the windows of
  the matched messages in match order, a matched message whose lookup fails adding nothing:
  where the lookup of a message fails, the result is the windows of the matches before it
  followed by the windows of the matches after it.
\<close>

theorem ListMessages_skips_failed_context:
  assumes "ListMessages_with ctx t dateRange sender chatJID query limit page False cb ca = Inr matched"
  shows "ListMessages_with ctx t dateRange sender chatJID query limit page True cb ca =
           Inr (concat (map (context_or_skip ctx cb ca) matched))
    \<and> (\<forall>pre msg post err. matched = pre @ msg # post \<and> ctx (ID msg) cb ca = Inl err \<longrightarrow>
         ListMessages_with ctx t dateRange sender chatJID query limit page True cb ca =
           Inr (concat (map (context_or_skip ctx cb ca) pre) @
                concat (map (context_or_skip ctx cb ca) post)))"
proof -
  have main: "ListMessages_with ctx t dateRange sender chatJID query limit page True cb ca =
           Inr (concat (map (context_or_skip ctx cb ca) matched))"
  proof -
    have eq: "(\<lambda>msg. case ctx (ID msg) cb ca of Inl err \<Rightarrow> []
                | Inr c \<Rightarrow> Before c @ [Message c] @ After c) = context_or_skip ctx cb ca"
      by (rule ext) (simp add: context_or_skip_def)
    from assms show ?thesis
      by (auto simp: ListMessages_with_def Let_def messagesWithContext_concat eq)
  qed
  then show ?thesis
    by (auto simp: context_or_skip_def)
qed

theorem ListMessages_skips_failed_context_witness:
  "ListMessages_with ex_ctx ex_tables [] [] [] [] 2 0 False 1 1 = Inr ex_matched
   \<and> map ID ex_matched = [''m50'', ''m40'']
   \<and> ex_ctx ''m40'' 1 1 = Inl ErrDBClosed
   \<and> map_sum id (map ID) (ListMessages_with ex_ctx ex_tables [] [] [] [] 2 0 True 1 1) =
       Inr [''m40'', ''m50'']"
proof -
  have h: "ListMessages_with ex_ctx ex_tables [] [] [] [] 2 0 False 1 1 = Inr ex_matched"
    by (simp add: ListMessages_with_def ListMessages_rows_def ListMessages_where_def
        messages_JOIN_chats_def Let_def LIMIT_OFFSET_def LIMIT_def ORDER_BY_DESC_def
        normal_limit_def normal_page_def ex_matched_def ex_tables_def ex_row_def)
  have w: "concat (map (context_or_skip ex_ctx 1 1) ex_matched) =
      map (\<lambda>m. scan_Message (m, hd (chats ex_tables)))
        [ex_row ''m40'' ''C@s.whatsapp.net'' 40, ex_row ''m50'' ''C@s.whatsapp.net'' 50]"
    by (simp add: context_or_skip_def ex_ctx_def GetMessageContext_def
        context_rows_before_def context_rows_after_def messages_JOIN_chats_def
        LIMIT_def ORDER_BY_DESC_def ORDER_BY_def scan_Message_def ex_matched_def
        ex_tables_def ex_row_def)
  have f: "ex_ctx ''m40'' 1 1 = Inl ErrDBClosed"
    by (simp add: ex_ctx_def)
  from ListMessages_skips_failed_context [OF h] have
    "ListMessages_with ex_ctx ex_tables [] [] [] [] 2 0 True 1 1 =
       Inr (concat (map (context_or_skip ex_ctx 1 1) ex_matched))"
    by (rule conjunct1)
  with h w f show ?thesis
    by (simp add: ex_matched_def scan_Message_def ex_row_def)
qed

lemma sint_mult_no_overflow:
  fixes a b :: "64 word"
  assumes "0 \<le> sint a" and "0 \<le> sint b" and "sint a * sint b < 2 ^ 63"
  shows "sint (a * b) = sint a * sint b"
proof -
  have "sint (a * b) = signed_take_bit 63 (sint a * sint b)"
    by (simp add: sint_word_ariths)
  also have "\<dots> = sint a * sint b"
  proof (rule signed_take_bit_int_eq_self)
    from assms(1,2) have "0 \<le> sint a * sint b" by simp
    then show "- (2 ^ 63) \<le> sint a * sint b" by simp
    from assms(3) show "sint a * sint b < 2 ^ 63" .
  qed
  finally show ?thesis .
qed

lemma normal_limit_sint: "sint (normal_limit limit) = (if sint limit \<le> 0 then 20 else sint limit)"
  by (simp add: normal_limit_def)

lemma normal_page_sint: "sint (normal_page page) = (if sint page < 0 then 0 else sint page)"
  by (simp add: normal_page_def)

lemma LIMIT_OFFSET_page_window:
  assumes "(if sint page < 0 then 0 else sint page) * (if sint limit \<le> 0 then 20 else sint limit) < 2 ^ 63"
  shows "LIMIT_OFFSET (sint (normal_limit limit)) (sint (normal_page page * normal_limit limit)) rows
       = page_window (sint limit) (sint page) rows"
proof -
  have l: "0 \<le> sint (normal_limit limit)" and p: "0 \<le> sint (normal_page page)"
    by (simp_all add: normal_limit_sint normal_page_sint)
  have "sint (normal_page page) * sint (normal_limit limit) < 2 ^ 63"
    using assms by (simp add: normal_limit_sint normal_page_sint)
  from sint_mult_no_overflow [OF p l this]
  have "sint (normal_page page * normal_limit limit) = sint (normal_page page) * sint (normal_limit limit)" .
  then show ?thesis
    using l p
    by (simp add: LIMIT_OFFSET_def LIMIT_def page_window_def normal_limit_sint normal_page_sint
          nat_mult_distrib)
qed

text \<open>
  C8, as amended. When \<open>page * limit\<close> of the normalised values is below \<open>2 ^ 63\<close>, each
  of \<open>ListMessages\<close>, \<open>ListChats\<close> (with the last message) and \<open>GetContactChats\<close> returns
  the window of its query that the specification describes: limit 20 for a limit that is
  not positive, page 0 for a negative page, \<open>page * limit\<close> rows skipped.
\<close>

theorem list_operations_pagination:
  assumes "(if sint page < 0 then 0 else sint page) * (if sint limit \<le> 0 then 20 else sint limit) < 2 ^ 63"
  shows "ListMessages_with ctx t dateRange sender chatJID query limit page includeContext cb ca =
           (if includeContext \<and>
               page_window (sint limit) (sint page)
                 (ListMessages_rows t dateRange sender chatJID query) \<noteq> []
            then Inr (messagesWithContext (\<lambda>i. ctx i cb ca)
                   (map scan_Message (page_window (sint limit) (sint page)
                      (ListMessages_rows t dateRange sender chatJID query))))
            else Inr (map scan_Message (page_window (sint limit) (sint page)
                   (ListMessages_rows t dateRange sender chatJID query))))
    \<and> ListChats t query limit page True sortBy =
           Inr (map scan_Chat (page_window (sint limit) (sint page) (ListChats_rows t query sortBy)))
    \<and> GetContactChats t jid limit page =
           Inr (map scan_Chat (page_window (sint limit) (sint page) (GetContactChats_rows t jid)))"
  by (simp add: ListMessages_with_def ListChats_def GetContactChats_def Let_def
        LIMIT_OFFSET_page_window [OF assms])

theorem list_operations_pagination_witness:
  "map_sum id (map ID) (ListMessages_with ex_ctx ex_tables [] [] [] [] 2 1 False 0 0) =
      Inr [''m30'', ''m20'']
   \<and> map_sum id (map JID) (ListChats ex_tables [] 0 (- 1) True []) = Inr [''C@s.whatsapp.net'']
   \<and> map_sum id (map JID) (GetContactChats ex_tables ''C@s.whatsapp.net'' 0 1) = Inr []"
  using list_operations_pagination [where page = 1 and limit = 2 and ctx = ex_ctx
        and t = ex_tables and dateRange = "[]" and sender = "[]" and chatJID = "[]"
        and query = "[]" and includeContext = False and cb = 0 and ca = 0
        and sortBy = "[]" and jid = "[]"]
    list_operations_pagination [where page = "- 1" and limit = 0 and ctx = ex_ctx
        and t = ex_tables and dateRange = "[]" and sender = "[]" and chatJID = "[]"
        and query = "[]" and includeContext = False and cb = 0 and ca = 0
        and sortBy = "[]" and jid = "[]"]
    list_operations_pagination [where page = 1 and limit = 0 and ctx = ex_ctx
        and t = ex_tables and dateRange = "[]" and sender = "[]" and chatJID = "[]"
        and query = "[]" and includeContext = False and cb = 0 and ca = 0
        and sortBy = "[]" and jid = "''C@s.whatsapp.net''"]
  by (simp add: page_window_def ListMessages_rows_def ListMessages_where_def ListChats_rows_def
        ListChats_where_def GetContactChats_rows_def GetContactChats_joined_def
        chats_LEFT_JOIN_messages_def
        messages_JOIN_chats_def Let_def ORDER_BY_DESC_def ORDER_BY_def scan_Message_def scan_Chat_def
        ex_tables_def ex_row_def)

text \<open>
  C8 as stated fails: with limit 4 and page \<open>2 ^ 62\<close> the offset wraps to 0 and the first
  four rows are returned, where skipping \<open>page * limit\<close> rows leaves none.
\<close>

theorem pagination_overflow_counterexample:
  "map_sum id (map ID) (ListMessages ex_tables [] [] [] [] 4 4611686018427387904 False 0 0) =
      Inr [''m50'', ''m40'', ''m30'', ''m20'']
   \<and> length (ListMessages_rows ex_tables [] [] [] []) = 5
   \<and> page_window 4 4611686018427387904 (ListMessages_rows ex_tables [] [] [] []) = []"
  by (simp add: ListMessages_def ListMessages_with_def page_window_def ListMessages_rows_def ListMessages_where_def
        messages_JOIN_chats_def Let_def LIMIT_OFFSET_def LIMIT_def ORDER_BY_DESC_def ORDER_BY_def normal_limit_def normal_page_def
        scan_Message_def ex_tables_def ex_row_def)

lemma left_join_member:
  "(c, lm) \<in> set (chats_LEFT_JOIN_messages t) \<longleftrightarrow>
     c \<in> set (chats t) \<and>
     (case lm of
        None \<Rightarrow> \<forall>m \<in> set (messages t).
                  \<not> (chats_jid c = messages_chat_jid m \<and> chats_last_message_time c = messages_timestamp m)
      | Some m \<Rightarrow> m \<in> set (messages t) \<and> chats_jid c = messages_chat_jid m
                  \<and> chats_last_message_time c = messages_timestamp m)"
proof -
  have one: "(c, lm) \<in> set (case filter P ms of [] \<Rightarrow> [(c', None)] | x # xs \<Rightarrow> map (\<lambda>m. (c', Some m)) (x # xs))
      \<longleftrightarrow> c = c' \<and> (case lm of None \<Rightarrow> \<forall>m \<in> set ms. \<not> P m | Some m \<Rightarrow> m \<in> set ms \<and> P m)"
    for P ms c'
  proof (cases "filter P ms")
    case Nil
    then show ?thesis
      by (cases lm) (auto simp: filter_empty_conv)
  next
    case (Cons x xs)
    then have ne: "\<exists>m \<in> set ms. P m"
      by (metis filter_empty_conv list.distinct(1))
    have "set (x # xs) = {m \<in> set ms. P m}"
      using Cons [symmetric] by simp
    then show ?thesis
      using Cons ne by (cases lm) auto
  qed
  show ?thesis
    unfolding chats_LEFT_JOIN_messages_def
    by (auto simp: one split: option.splits list.splits)
qed

lemma set_ListChats_rows:
  "set (ListChats_rows t query sortBy) =
     {r \<in> set (chats_LEFT_JOIN_messages t). ListChats_where query r}"
  by (simp add: ListChats_rows_def)

lemma scan_Chat_joined:
  assumes "(row, lm) \<in> set (chats_LEFT_JOIN_messages t)" and "c = scan_Chat (row, lm)"
  shows "(\<exists>m \<in> set (messages t). messages_chat_jid m = JID c
            \<and> messages_timestamp m = LastMessageTime c
            \<and> LastMessage c = messages_content m \<and> LastSender c = messages_sender m
            \<and> LastIsFromMe c = messages_is_from_me m)
       \<or> ((\<forall>m \<in> set (messages t).
              \<not> (messages_chat_jid m = JID c \<and> messages_timestamp m = LastMessageTime c))
            \<and> LastMessage c = [] \<and> LastSender c = [] \<and> \<not> LastIsFromMe c)"
proof (cases lm)
  case None
  with assms(1) have "\<forall>m \<in> set (messages t).
      \<not> (chats_jid row = messages_chat_jid m \<and> chats_last_message_time row = messages_timestamp m)"
    by (simp add: left_join_member)
  then show ?thesis
    unfolding assms(2) None by (auto simp: scan_Chat_def)
next
  case (Some m)
  with assms(1) have "m \<in> set (messages t)" and "chats_jid row = messages_chat_jid m"
    and "chats_last_message_time row = messages_timestamp m"
    by (simp_all add: left_join_member)
  then show ?thesis
    unfolding assms(2) Some by (auto simp: scan_Chat_def)
qed

text \<open>
  C6. Every chat that \<open>ListChats\<close> returns with \<open>includeLastMessage\<close> carries the content,
  sender and direction of a stored message of that chat whose timestamp equals the chat's
  \<open>LastMessageTime\<close>, or, when no stored message of the chat has that timestamp, an absent
  last message (the zero values); and a chat with no such message is a row of the query,
  with an absent last message.
\<close>

theorem ListChats_last_message:
  "(\<forall>cs c. ListChats t query limit page True sortBy = Inr cs \<and> c \<in> set cs \<longrightarrow>
       (\<exists>m \<in> set (messages t). messages_chat_jid m = JID c
            \<and> messages_timestamp m = LastMessageTime c
            \<and> LastMessage c = messages_content m \<and> LastSender c = messages_sender m
            \<and> LastIsFromMe c = messages_is_from_me m)
       \<or> ((\<forall>m \<in> set (messages t).
              \<not> (messages_chat_jid m = JID c \<and> messages_timestamp m = LastMessageTime c))
            \<and> LastMessage c = [] \<and> LastSender c = [] \<and> \<not> LastIsFromMe c))
   \<and> (\<forall>row \<in> set (chats t).
         ListChats_where query (row, None)
         \<and> (\<forall>m \<in> set (messages t).
              \<not> (messages_chat_jid m = chats_jid row
                 \<and> messages_timestamp m = chats_last_message_time row))
         \<longrightarrow> (row, None) \<in> set (ListChats_rows t query sortBy))"
proof (intro conjI allI impI ballI)
  fix cs c
  assume a: "ListChats t query limit page True sortBy = Inr cs \<and> c \<in> set cs"
  then have "c \<in> set (map scan_Chat (LIMIT_OFFSET (sint (normal_limit limit))
           (sint (normal_page page * normal_limit limit)) (ListChats_rows t query sortBy)))"
    by (auto simp: ListChats_def)
  then obtain r where r: "r \<in> set (LIMIT_OFFSET (sint (normal_limit limit))
           (sint (normal_page page * normal_limit limit)) (ListChats_rows t query sortBy))"
    and c: "c = scan_Chat r"
    unfolding set_map by (rule imageE)
  from r set_LIMIT_OFFSET have "r \<in> set (ListChats_rows t query sortBy)"
    by (rule subsetD [rotated])
  then have "(fst r, snd r) \<in> set (chats_LEFT_JOIN_messages t)"
    by (simp add: set_ListChats_rows)
  from scan_Chat_joined [OF this] c
  show "(\<exists>m \<in> set (messages t). messages_chat_jid m = JID c
            \<and> messages_timestamp m = LastMessageTime c
            \<and> LastMessage c = messages_content m \<and> LastSender c = messages_sender m
            \<and> LastIsFromMe c = messages_is_from_me m)
       \<or> ((\<forall>m \<in> set (messages t).
              \<not> (messages_chat_jid m = JID c \<and> messages_timestamp m = LastMessageTime c))
            \<and> LastMessage c = [] \<and> LastSender c = [] \<and> \<not> LastIsFromMe c)"
    by simp
next
  fix row
  assume row: "row \<in> set (chats t)"
    and b: "ListChats_where query (row, None)
         \<and> (\<forall>m \<in> set (messages t).
              \<not> (messages_chat_jid m = chats_jid row
                 \<and> messages_timestamp m = chats_last_message_time row))"
  then have "(row, None) \<in> set (chats_LEFT_JOIN_messages t)"
    by (auto simp: left_join_member)
  with b show "(row, None) \<in> set (ListChats_rows t query sortBy)"
    by (simp add: set_ListChats_rows)
qed

theorem ListChats_last_message_witness:
  "ListChats ex_chats_tables [] 10 0 True [] =
     Inr [\<lparr>JID = ''B@s.whatsapp.net'', Name = ''Bob'', LastMessageTime = 7,
           LastMessage = [], LastSender = [], LastIsFromMe = False\<rparr>,
          \<lparr>JID = ''A@s.whatsapp.net'', Name = ''Alice'', LastMessageTime = 5,
           LastMessage = ''text'', LastSender = ''peer'', LastIsFromMe = False\<rparr>]
   \<and> map messages_timestamp (messages ex_chats_tables) = [5, 9, 5]"
  using ListChats_last_message [of ex_chats_tables "[]" 10 0 "[]"]
  by (simp add: ListChats_def ListChats_rows_def ListChats_where_def chats_LEFT_JOIN_messages_def
        LIMIT_OFFSET_def LIMIT_def ORDER_BY_DESC_def normal_limit_def normal_page_def
        scan_Chat_def ex_chats_tables_def ex_row_def)

section \<open>Searching contacts\<close>

lemma of_char_lower_char:
  "(of_char (lower_char c) :: nat) =
     (if 65 \<le> (of_char c :: nat) \<and> (of_char c :: nat) \<le> 90 then of_char c + 32 else of_char c)"
proof -
  have "(of_char c :: nat) < 256" by simp
  then show ?thesis
    by (auto simp: lower_char_def less_eq_char_def)
qed

lemma lower_char_idem [simp]: "lower_char (lower_char c) = lower_char c"
proof -
  have "(of_char (lower_char (lower_char c)) :: nat) = of_char (lower_char c)"
    by (simp add: of_char_lower_char)
  then show ?thesis by simp
qed

lemma lower_char_percent [simp]: "lower_char c = CHR ''%'' \<longleftrightarrow> c = CHR ''%''"
proof -
  have "(of_char (lower_char c) :: nat) = of_char CHR ''%'' \<longleftrightarrow> (of_char c :: nat) = of_char CHR ''%''"
    by (simp add: of_char_lower_char)
  then show ?thesis by (simp only: of_char_eq_iff)
qed

lemma lower_char_underscore [simp]: "lower_char c = CHR ''_'' \<longleftrightarrow> c = CHR ''_''"
proof -
  have "(of_char (lower_char c) :: nat) = of_char CHR ''_'' \<longleftrightarrow> (of_char c :: nat) = of_char CHR ''_''"
    by (simp add: of_char_lower_char)
  then show ?thesis by (simp only: of_char_eq_iff)
qed


lemma wildcard_free_LOWER [simp]: "wildcard_free (LOWER q) = wildcard_free q"
  by (auto simp: wildcard_free_def LOWER_def)

lemma LIKE_percent_only [simp]: "LIKE s ''%''"
  by (induction s) auto




















end
